theory Spec2Isabelle
  imports Main
begin

section \<open>mshell (smallsh): a shallow embedding of mshell.c\<close>

text \<open>
  The shell of \<^verbatim>\<open>src/mshell.c\<close> reads a line, expands the process-id marker, tokenises the
  line into a \<^verbatim>\<open>struct Command\<close>, and routes it to a builtin or to a forked child. The
  embedding keeps the source's function names. C strings are \<^typ>\<open>string\<close>. Where the source
  reaches undefined behaviour the model returns a value of type \<open>fault\<close> and says nothing
  of what follows: a \<^verbatim>\<open>NULL\<close> token handed to \<^verbatim>\<open>strcpy\<close> or \<^verbatim>\<open>strcmp\<close>, an index outside
  \<^verbatim>\<open>args[MAX_ARGS]\<close>, a string that does not fit \<^verbatim>\<open>rawCommand[MAX_INPUT]\<close> or one of the
  50-byte file names.
\<close>

subsection \<open>Formatting: \<^verbatim>\<open>%d\<close>\<close>

definition digit_char :: "nat \<Rightarrow> char" where
  "digit_char d = ''0123456789'' ! d"

function show_nat :: "nat \<Rightarrow> string" where
  "show_nat n = (if n < 10 then [digit_char n] else show_nat (n div 10) @ [digit_char (n mod 10)])"
  by pat_completeness auto
termination
  by (relation "measure (\<lambda>n. n)") auto

declare show_nat.simps [simp del]

text \<open>\<^verbatim>\<open>printf("%d", i)\<close>: the decimal digits, with a minus sign for a negative number.\<close>

definition show_int :: "int \<Rightarrow> string" where
  "show_int i = (if i < 0 then CHR ''-'' # show_nat (nat (- i)) else show_nat (nat i))"

subsection \<open>Strings: \<^verbatim>\<open>strstr\<close> and \<^verbatim>\<open>strtok\<close>\<close>

text \<open>\<^verbatim>\<open>strstr(hay, needle)\<close>: the index of the first occurrence, \<open>None\<close> for \<^verbatim>\<open>NULL\<close>.\<close>

fun strstr :: "string \<Rightarrow> string \<Rightarrow> nat option" where
  "strstr [] needle = (if needle = [] then Some 0 else None)"
| "strstr (c # cs) needle =
     (if take (length needle) (c # cs) = needle then Some 0
      else map_option Suc (strstr cs needle))"

text \<open>
  The tokens that the successive calls \<^verbatim>\<open>strtok(raw, " ")\<close>, \<^verbatim>\<open>strtok(NULL, " ")\<close>, ... return:
  the maximal runs of characters other than the space. The first argument is the token
  being read. When the list is exhausted \<^verbatim>\<open>strtok\<close> returns \<^verbatim>\<open>NULL\<close>.
\<close>

fun strtok_from :: "string \<Rightarrow> string \<Rightarrow> string list" where
  "strtok_from cur [] = (if cur = [] then [] else [cur])"
| "strtok_from cur (c # cs) =
     (if c = CHR '' '' then (if cur = [] then strtok_from [] cs else cur # strtok_from [] cs)
      else strtok_from (cur @ [c]) cs)"

definition strtok_all :: "string \<Rightarrow> string list" where
  "strtok_all raw = strtok_from [] raw"

subsection \<open>The process-id marker\<close>

definition marker :: string where
  "marker = ''$$''"

definition dollars :: "string \<Rightarrow> nat" where
  "dollars s = length (filter (\<lambda>c. c = CHR ''$'') s)"

text \<open>
  The loop at the head of \<^verbatim>\<open>parseCommand\<close>:
  \<^verbatim>\<open>while((pos = strstr(raw,"$$"))) { strcpy(buff,pos+2); sprintf(pos,"%d%s",getpid(),buff); }\<close>
  It ends because each round removes two dollar signs and \<^verbatim>\<open>%d\<close> prints none.
\<close>

function expandPid :: "int \<Rightarrow> string \<Rightarrow> string" where
  "expandPid p raw =
     (case strstr raw marker of
        None \<Rightarrow> raw
      | Some pos \<Rightarrow> expandPid p (take pos raw @ show_int p @ drop (pos + 2) raw))"
  by pat_completeness auto
termination
proof (relation "measure (\<lambda>(p, raw). dollars raw)")
  show "wf (measure (\<lambda>(p, raw). dollars raw))"
    by simp
next
  fix p :: int and raw :: string and pos :: nat
  assume found: "strstr raw marker = Some pos"
  have digit: "digit_char d \<noteq> CHR ''$''" if "d < 10" for d
  proof -
    from that have "''0123456789'' ! d \<in> set ''0123456789''"
      by (intro nth_mem) simp
    then show ?thesis
      by (auto simp: digit_char_def)
  qed
  have digits: "CHR ''$'' \<notin> set (show_nat n)" for n
  proof (induction n rule: show_nat.induct)
    case (1 n)
    show ?case
    proof (cases "n < 10")
      case True
      then show ?thesis
        using digit [of n] by (subst show_nat.simps) auto
    next
      case False
      have "digit_char (n mod 10) \<noteq> CHR ''$''"
        by (rule digit) simp
      with False "1" show ?thesis
        by (subst show_nat.simps) auto
    qed
  qed
  have "CHR ''$'' \<notin> set (show_int p)"
    using digits by (simp add: show_int_def)
  then have printed: "dollars (show_int p) = 0"
    by (auto simp: dollars_def filter_empty_conv)
  have at: "take 2 (drop q hay) = marker" if "strstr hay marker = Some q" for hay q
    using that
  proof (induction hay arbitrary: q)
    case Nil
    then show ?case by (simp add: marker_def)
  next
    case (Cons c cs)
    show ?case
    proof (cases "take 2 (c # cs) = marker")
      case True
      with Cons.prems show ?thesis by (simp add: marker_def)
    next
      case False
      with Cons.prems obtain q' where "strstr cs marker = Some q'" "q = Suc q'"
        by (auto simp: marker_def)
      with Cons.IH [of q'] show ?thesis by simp
    qed
  qed
  have "drop pos raw = marker @ drop 2 (drop pos raw)"
    using at [OF found] by (metis append_take_drop_id)
  then have "raw = take pos raw @ marker @ drop (pos + 2) raw"
    by (metis add.commute append_take_drop_id drop_drop)
  then have "dollars raw = dollars (take pos raw) + dollars marker + dollars (drop (pos + 2) raw)"
    by (metis add.assoc dollars_def filter_append length_append)
  moreover have "dollars marker = 2"
    by (simp add: marker_def dollars_def)
  ultimately have "dollars (take pos raw @ show_int p @ drop (pos + 2) raw) < dollars raw"
    using printed by (simp add: dollars_def)
  then show "((p, take pos raw @ show_int p @ drop (pos + 2) raw), (p, raw))
      \<in> measure (\<lambda>(p, raw). dollars raw)"
    by simp
qed

declare expandPid.simps [simp del]

text \<open>
  The substitution in the words of the specification: one pass from the left, each marker
  replaced by the decimal process id, every other character kept.
\<close>

fun substitute_markers :: "int \<Rightarrow> string \<Rightarrow> string" where
  "substitute_markers p (a # b # cs) =
     (if a = CHR ''$'' \<and> b = CHR ''$'' then show_int p @ substitute_markers p cs
      else a # substitute_markers p (b # cs))"
| "substitute_markers p cs = cs"

fun count_markers :: "string \<Rightarrow> nat" where
  "count_markers (a # b # cs) =
     (if a = CHR ''$'' \<and> b = CHR ''$'' then Suc (count_markers cs) else count_markers (b # cs))"
| "count_markers cs = 0"


subsection \<open>\<^verbatim>\<open>struct Command\<close>\<close>

text \<open>
  Undefined behaviour that the parser and the dispatcher can reach: handing \<^verbatim>\<open>NULL\<close> to
  \<^verbatim>\<open>strcpy\<close> or \<^verbatim>\<open>strcmp\<close>, indexing \<^verbatim>\<open>args\<close> outside its bounds, and copying a string
  into a character array that is too short for it and its terminator. In the running
  program such a copy runs over the members that follow in the struct; the model stops
  there.
\<close>

datatype fault = NullDeref | OutOfBounds | BufferOverflow

text \<open>
  The sizes of the arrays of \<^verbatim>\<open>struct Command\<close>: \<^verbatim>\<open>char rawCommand[MAX_INPUT]\<close>,
  \<^verbatim>\<open>char* args[MAX_ARGS]\<close>, \<^verbatim>\<open>char inputFile[50]\<close> and \<^verbatim>\<open>char outputFile[50]\<close>.
\<close>

definition MAX_ARGS :: nat where
  "MAX_ARGS = 512"

definition MAX_INPUT :: nat where
  "MAX_INPUT = 2048"

definition FILE_SIZE :: nat where
  "FILE_SIZE = 50"

record Command =
  rawCommand :: string
  numArgs :: int
  args :: "string option list"
  inputRedirect :: bool
  inputFile :: string
  outputRedirect :: bool
  outputFile :: string
  backgroundProcess :: bool
  pid :: int

text \<open>\<^verbatim>\<open>calloc(1, sizeof(struct Command))\<close>: every member is zero.\<close>

definition calloc_Command :: Command where
  "calloc_Command =
     \<lparr>rawCommand = [], numArgs = 0, args = [], inputRedirect = False, inputFile = [],
      outputRedirect = False, outputFile = [], backgroundProcess = False, pid = 0\<rparr>"

text \<open>
  \<^verbatim>\<open>char* args[MAX_ARGS]\<close> starts as all \<^verbatim>\<open>NULL\<close>. The list holds the cells up to the last
  one written; every cell beyond it is \<open>None\<close>, that is \<^verbatim>\<open>NULL\<close>. An index below 0 or from
  \<^verbatim>\<open>MAX_ARGS\<close> on is outside the array.
\<close>

definition cell :: "'a option list \<Rightarrow> nat \<Rightarrow> 'a option" where
  "cell xs i = (if i < length xs then xs ! i else None)"

definition store :: "'a option list \<Rightarrow> nat \<Rightarrow> 'a option \<Rightarrow> 'a option list" where
  "store xs i v =
     (if i < length xs then xs[i := v] else xs @ replicate (i - length xs) None @ [v])"

definition args_read :: "Command \<Rightarrow> int \<Rightarrow> fault + string option" where
  "args_read c i =
     (if i < 0 \<or> int MAX_ARGS \<le> i then Inl OutOfBounds else Inr (cell (args c) (nat i)))"

definition args_write :: "Command \<Rightarrow> int \<Rightarrow> string option \<Rightarrow> fault + Command" where
  "args_write c i v =
     (if i < 0 \<or> int MAX_ARGS \<le> i then Inl OutOfBounds
      else Inr (c\<lparr>args := store (args c) (nat i) v\<rparr>))"

text \<open>The vector that \<^verbatim>\<open>execvp\<close> reads: the cells before the first \<^verbatim>\<open>NULL\<close>.\<close>

definition argv :: "Command \<Rightarrow> string list" where
  "argv c = map the (takeWhile (\<lambda>a. a \<noteq> None) (args c))"

subsection \<open>\<^verbatim>\<open>parseCommand\<close>\<close>

text \<open>
  The tokenising loop. The first argument is the list of tokens still to come from
  \<^verbatim>\<open>strtok\<close>, the current token at its head; the empty list is \<^verbatim>\<open>token == NULL\<close>. After
  \<^verbatim>\<open><\<close> or \<^verbatim>\<open>>\<close> the source calls \<^verbatim>\<open>strtok\<close> once more and copies the result with \<^verbatim>\<open>strcpy\<close>
  into the 50-byte file name, without a test for \<^verbatim>\<open>NULL\<close> and without a test of the
  length: a target of 50 characters or more does not fit with its terminator.
\<close>

fun tokenLoop :: "string list \<Rightarrow> Command \<Rightarrow> fault + Command" where
  "tokenLoop [] c = Inr c"
| "tokenLoop (token # rest) c =
     (if token = ''<'' then
        (case rest of
           [] \<Rightarrow> Inl NullDeref
         | target # rest' \<Rightarrow>
             (if FILE_SIZE \<le> length target then Inl BufferOverflow
              else tokenLoop rest' (c\<lparr>inputRedirect := True, inputFile := target\<rparr>)))
      else if token = ''>'' then
        (case rest of
           [] \<Rightarrow> Inl NullDeref
         | target # rest' \<Rightarrow>
             (if FILE_SIZE \<le> length target then Inl BufferOverflow
              else tokenLoop rest' (c\<lparr>outputRedirect := True, outputFile := target\<rparr>)))
      else
        (case args_write c (numArgs c) (Some token) of
           Inl f \<Rightarrow> Inl f
         | Inr c' \<Rightarrow> tokenLoop rest (c'\<lparr>numArgs := numArgs c' + 1\<rparr>)))"

text \<open>
  The test for the background marker:
  \<^verbatim>\<open>if(strcmp(cmnd->args[cmnd->numArgs-1], "&")==0) {...} else { cmnd->args[cmnd->numArgs] = NULL; }\<close>
\<close>

definition markBackground :: "Command \<Rightarrow> fault + Command" where
  "markBackground c =
     (case args_read c (numArgs c - 1) of
        Inl f \<Rightarrow> Inl f
      | Inr None \<Rightarrow> Inl NullDeref
      | Inr (Some a) \<Rightarrow>
          (if a = ''&'' then args_write (c\<lparr>backgroundProcess := True\<rparr>) (numArgs c - 1) None
           else args_write c (numArgs c) None))"

text \<open>
  The first half of \<^verbatim>\<open>parseCommand\<close>: the expansion and the tokenising loop. The first
  argument is what \<^verbatim>\<open>getpid()\<close> returns. The expansion is done in place, in
  \<^verbatim>\<open>rawCommand[MAX_INPUT]\<close>: \<^verbatim>\<open>getCommand\<close> copied the line there with \<^verbatim>\<open>strcpy\<close>, and every round
  of the loop writes the string back with \<^verbatim>\<open>sprintf\<close>. Each round changes the length by the
  same amount, so the string is longest either before the first round or after the last
  (\<open>expandPid_round_fits\<close> below): when the line and its expansion are shorter than
  \<^verbatim>\<open>MAX_INPUT\<close> every copy fits, and otherwise one of them runs over \<^verbatim>\<open>numArgs\<close> and \<^verbatim>\<open>args\<close>.
\<close>

definition tokenized :: "int \<Rightarrow> Command \<Rightarrow> fault + Command" where
  "tokenized own_pid c =
     (let raw = expandPid own_pid (rawCommand c) in
      if MAX_INPUT \<le> length (rawCommand c) \<or> MAX_INPUT \<le> length raw then Inl BufferOverflow
      else tokenLoop (strtok_all raw) (c\<lparr>rawCommand := raw\<rparr>))"

definition parseCommand :: "int \<Rightarrow> Command \<Rightarrow> fault + Command" where
  "parseCommand own_pid c =
     (case tokenized own_pid c of
        Inl f \<Rightarrow> Inl f
      | Inr c' \<Rightarrow> markBackground c')"

text \<open>The command as \<^verbatim>\<open>shell\<close> hands it to the parser: fresh from \<^verbatim>\<open>calloc\<close>, holding the line.\<close>

definition readCommand :: "string \<Rightarrow> Command" where
  "readCommand line = calloc_Command\<lparr>rawCommand := line\<rparr>"


subsection \<open>The platform and the state of the shell process\<close>

text \<open>
  What the source takes from the system headers and the kernel is a parameter of the
  model: the four status macros of \<^verbatim>\<open><sys/wait.h>\<close>, the process id, the value of
  \<^verbatim>\<open>HOME\<close>, and the results of \<^verbatim>\<open>chdir\<close>, \<^verbatim>\<open>open\<close>, \<^verbatim>\<open>dup2\<close> and \<^verbatim>\<open>execvp\<close>. A failing call
  yields the text of \<^verbatim>\<open>strerror(errno)\<close>.
\<close>

datatype open_flags = O_RDONLY | O_WRONLY_CREAT_TRUNC

record platform =
  WIFEXITED :: "int \<Rightarrow> bool"
  WEXITSTATUS :: "int \<Rightarrow> int"
  WIFSIGNALED :: "int \<Rightarrow> bool"
  WTERMSIG :: "int \<Rightarrow> int"
  getpid :: int
  getenv_HOME :: "string option"
  chdir_sys :: "string \<Rightarrow> string \<Rightarrow> string + string"
  open_sys :: "string \<Rightarrow> open_flags \<Rightarrow> string option"
  dup2_sys :: "nat \<Rightarrow> string option"
  execvp_sys :: "string \<Rightarrow> bool"

text \<open>
  What happens around one call of \<^verbatim>\<open>routeCommand\<close>: the value \<^verbatim>\<open>fork\<close> returns (\<open>-1\<close> on
  failure, \<open>0\<close> in the child, the child's id in the parent), the deliveries of
  \<^verbatim>\<open>SIGTSTP\<close> while the parent is blocked in \<^verbatim>\<open>waitpid\<close>, and the status \<^verbatim>\<open>waitpid\<close> stores.
  Each delivery comes with what the two calls of \<^verbatim>\<open>sigaction\<close> in the handler return. A
  delivery at the prompt is a step of its own, \<open>deliver_SIGTSTP\<close> on the state between two
  commands.
\<close>

datatype sigaction_result = Sigaction_ok | Query_fails | Install_fails

record dispatch =
  fork_result :: int
  fork_error :: string
  tstp_during_wait :: "sigaction_result list"
  wait_status :: int

datatype tstp_handler = H_foregroundonly | H_allowbackground

datatype disposition = SIG_DFL | SIG_IGN | Handler tstp_handler

datatype binding = Inherited | Opened string open_flags

text \<open>
  The three \<^verbatim>\<open>volatile sig_atomic_t\<close> globals, the dispositions of the two signals, the
  local \<^verbatim>\<open>exitStatus\<close> of \<^verbatim>\<open>shell\<close>, the working directory, what descriptors 0 and 1 are
  bound to, the bytes written to descriptors 1 and 2 so far, and the lines still to be read
  from descriptor 0 (each as \<^verbatim>\<open>getline\<close> returns it; the empty list is end of input).
\<close>

record shell =
  allowBackground :: bool
  sigtstpTriggered :: bool
  processActive :: bool
  sigtstp :: disposition
  sigint :: disposition
  exitStatus :: int
  cwd :: string
  fd0 :: binding
  fd1 :: binding
  stdout :: string
  stderr :: string
  stdin :: "string list"

definition EXIT_FAILURE :: int where
  "EXIT_FAILURE = 1"

definition perror :: "string \<Rightarrow> string \<Rightarrow> string" where
  "perror msg e = msg @ '': '' @ e @ ''\<newline>''"

definition sigintIgnore :: "shell \<Rightarrow> shell" where
  "sigintIgnore st = st\<lparr>sigint := SIG_IGN\<rparr>"

definition sigintDefault :: "shell \<Rightarrow> shell" where
  "sigintDefault st = st\<lparr>sigint := SIG_DFL\<rparr>"

definition sigtstpSet :: "shell \<Rightarrow> shell" where
  "sigtstpSet st = st\<lparr>sigtstp := Handler H_foregroundonly\<rparr>"

text \<open>
  The process when \<^verbatim>\<open>shell\<close> enters its loop, both calls of \<^verbatim>\<open>sigaction\<close> having
  succeeded.
\<close>

definition shell_start :: "string \<Rightarrow> string list \<Rightarrow> shell" where
  "shell_start dir input =
     sigtstpSet (sigintIgnore
       \<lparr>allowBackground = True, sigtstpTriggered = False, processActive = False,
        sigtstp = SIG_DFL, sigint = SIG_DFL, exitStatus = 0, cwd = dir,
        fd0 = Inherited, fd1 = Inherited, stdout = [], stderr = [], stdin = input\<rparr>)"

subsection \<open>The \<^verbatim>\<open>SIGTSTP\<close> handlers\<close>

definition bgOn :: string where
  "bgOn = ''\<newline>Exiting foreground-only mode.\<newline>: ''"

definition bgOff :: string where
  "bgOff = ''\<newline>Entering foreground-only mode (& is now ignored).\<newline>: ''"

definition allowbackground :: "sigaction_result \<Rightarrow> shell \<Rightarrow> shell" where
  "allowbackground r st =
     (if r = Query_fails then st
      else if r = Install_fails then st
      else
        (let st1 = st\<lparr>sigtstp := Handler H_foregroundonly, allowBackground := True,
                       sigtstpTriggered := True\<rparr>
         in if \<not> processActive st1
            then st1\<lparr>stdout := stdout st1 @ bgOn, sigtstpTriggered := False\<rparr>
            else st1))"

definition foregroundonly :: "sigaction_result \<Rightarrow> shell \<Rightarrow> shell" where
  "foregroundonly r st =
     (if r = Query_fails then st
      else if r = Install_fails then st
      else
        (let st1 = st\<lparr>sigtstp := Handler H_allowbackground, allowBackground := False,
                       sigtstpTriggered := True\<rparr>
         in if \<not> processActive st1
            then st1\<lparr>stdout := stdout st1 @ bgOff, sigtstpTriggered := False\<rparr>
            else st1))"

text \<open>
  One delivery of \<^verbatim>\<open>SIGTSTP\<close> runs the handler that is installed. The handlers were
  installed with a full signal mask, so a delivery is one step.
\<close>

definition deliver_SIGTSTP :: "sigaction_result \<Rightarrow> shell \<Rightarrow> shell" where
  "deliver_SIGTSTP r st =
     (case sigtstp st of
        Handler H_foregroundonly \<Rightarrow> foregroundonly r st
      | Handler H_allowbackground \<Rightarrow> allowbackground r st
      | SIG_IGN \<Rightarrow> st
      | SIG_DFL \<Rightarrow> st)"

subsection \<open>The builtins and the reaper\<close>

definition reportStatus :: "platform \<Rightarrow> int \<Rightarrow> shell \<Rightarrow> shell" where
  "reportStatus P status st =
     (if WIFEXITED P status
      then st\<lparr>stdout := stdout st @ ''exit value '' @ show_int (WEXITSTATUS P status) @ ''\<newline>''\<rparr>
      else if WIFSIGNALED P status
      then st\<lparr>stdout := stdout st @ ''terminated by signal '' @ show_int (WTERMSIG P status)
                              @ ''\<newline>''\<rparr>
      else st)"

text \<open>
  \<^verbatim>\<open>chdir(path)\<close>: the error text on failure, and the state. A \<^verbatim>\<open>NULL\<close> path (what
  \<^verbatim>\<open>getenv("HOME")\<close> returns when the variable is not set) is refused by the kernel.
\<close>

definition chdir :: "platform \<Rightarrow> string option \<Rightarrow> shell \<Rightarrow> string option \<times> shell" where
  "chdir P path st =
     (case path of
        None \<Rightarrow> (Some ''Bad address'', st)
      | Some d \<Rightarrow>
          (case chdir_sys P (cwd st) d of
             Inl e \<Rightarrow> (Some e, st)
           | Inr d' \<Rightarrow> (None, st\<lparr>cwd := d'\<rparr>)))"

definition cd :: "platform \<Rightarrow> string option \<Rightarrow> shell \<Rightarrow> shell" where
  "cd P dir st =
     (case dir of
        None \<Rightarrow> snd (chdir P (getenv_HOME P) st)
      | Some d \<Rightarrow>
          (case chdir P (Some d) st of
             (None, st') \<Rightarrow> st'
           | (Some e, st') \<Rightarrow> st'\<lparr>stderr := stderr st' @ perror ''Nope'' e\<rparr>))"

text \<open>
  \<^verbatim>\<open>burnZombie\<close>: the list holds what the successive calls
  \<^verbatim>\<open>waitpid(0,&zStatus,WNOHANG)\<close> return, as pairs of the id and the status; when the list
  is exhausted the call returns no child.
\<close>

fun burnZombie :: "platform \<Rightarrow> (int \<times> int) list \<Rightarrow> shell \<Rightarrow> shell" where
  "burnZombie P [] st = st"
| "burnZombie P ((zPid, zStatus) # later) st =
     (if zPid > 0
      then burnZombie P later
             (reportStatus P zStatus
                (st\<lparr>stdout := stdout st @ ''background pid '' @ show_int zPid @ '' is done: ''\<rparr>))
      else st)"

text \<open>
  \<^verbatim>\<open>burnEverything\<close> reaps and kills the children of the process group. None of it shows
  in the state of the shell process that the model keeps.
\<close>

definition burnEverything :: "shell \<Rightarrow> shell" where
  "burnEverything st = st"


subsection \<open>\<^verbatim>\<open>inputoutputRedirect\<close>\<close>

text \<open>
  Each half opens its target and binds it with \<^verbatim>\<open>dup2\<close>; an empty file name stands for the
  null device. \<open>Inl\<close> is the process after \<^verbatim>\<open>exit(EXIT_FAILURE)\<close>.
\<close>

definition redirectInput :: "platform \<Rightarrow> Command \<Rightarrow> shell \<Rightarrow> shell + shell" where
  "redirectInput P cmnd st =
     (if inputRedirect cmnd then
        (if length (inputFile cmnd) = 0 then
           (case open_sys P ''/dev/null'' O_RDONLY of
              Some e \<Rightarrow>
                Inl (st\<lparr>stderr := stderr st
                          @ perror ''smallsh: cannot open /dev/null input.\<newline>'' e\<rparr>)
            | None \<Rightarrow>
                (case dup2_sys P 0 of
                   Some e \<Rightarrow>
                     Inl (st\<lparr>stderr := stderr st
                               @ perror ''smallsh: cannot open /dev/null input.\<newline>'' e\<rparr>)
                 | None \<Rightarrow> Inr (st\<lparr>fd0 := Opened ''/dev/null'' O_RDONLY\<rparr>)))
         else
           (case open_sys P (inputFile cmnd) O_RDONLY of
              Some e \<Rightarrow>
                Inl (st\<lparr>stderr := stderr st @ ''Unable to open input file: '' @ inputFile cmnd
                          @ ''.\<newline>''\<rparr>)
            | None \<Rightarrow>
                (case dup2_sys P 0 of
                   Some e \<Rightarrow>
                     Inl (st\<lparr>stderr := stderr st @ ''Unable to open input file: ''
                               @ inputFile cmnd @ ''.\<newline>''\<rparr>)
                 | None \<Rightarrow> Inr (st\<lparr>fd0 := Opened (inputFile cmnd) O_RDONLY\<rparr>))))
      else Inr st)"

definition redirectOutput :: "platform \<Rightarrow> Command \<Rightarrow> shell \<Rightarrow> shell + shell" where
  "redirectOutput P cmnd st =
     (if outputRedirect cmnd then
        (if length (outputFile cmnd) = 0 then
           (case open_sys P ''/dev/null'' O_WRONLY_CREAT_TRUNC of
              Some e \<Rightarrow>
                Inl (st\<lparr>stderr := stderr st
                          @ perror ''smallsh: cannot open /dev/null output.\<newline>'' e\<rparr>)
            | None \<Rightarrow>
                (case dup2_sys P 1 of
                   Some e \<Rightarrow>
                     Inl (st\<lparr>stderr := stderr st
                               @ perror ''smallsh: cannot open /dev/null output.\<newline>'' e\<rparr>)
                 | None \<Rightarrow> Inr (st\<lparr>fd1 := Opened ''/dev/null'' O_WRONLY_CREAT_TRUNC\<rparr>)))
         else
           (case open_sys P (outputFile cmnd) O_WRONLY_CREAT_TRUNC of
              Some e \<Rightarrow>
                Inl (st\<lparr>stderr := stderr st @ ''Unable to open output file: ''
                          @ outputFile cmnd @ ''.\<newline>''\<rparr>)
            | None \<Rightarrow>
                (case dup2_sys P 1 of
                   Some e \<Rightarrow>
                     Inl (st\<lparr>stderr := stderr st @ ''Unable to open output file: ''
                               @ outputFile cmnd @ ''.\<newline>''\<rparr>)
                 | None \<Rightarrow> Inr (st\<lparr>fd1 := Opened (outputFile cmnd) O_WRONLY_CREAT_TRUNC\<rparr>))))
      else Inr st)"

definition inputoutputRedirect :: "platform \<Rightarrow> Command \<Rightarrow> shell \<Rightarrow> shell + shell" where
  "inputoutputRedirect P cmnd st =
     (case redirectInput P cmnd st of
        Inl dead \<Rightarrow> Inl dead
      | Inr st' \<Rightarrow> redirectOutput P cmnd st')"

subsection \<open>\<^verbatim>\<open>getCommand\<close>\<close>

text \<open>
  The loop prompts and reads; \<^verbatim>\<open>getline\<close> returns \<open>-1\<close> at end of input, which the test
  \<^verbatim>\<open>numChars <= 1\<close> treats like an empty line: \<^verbatim>\<open>clearerr(stdin)\<close> and the next round. The
  loop has no other way out than a line that is kept, so it is a partial function: \<open>None\<close>
  is a run that never returns. The line that \<^verbatim>\<open>strcpy\<close> writes is kept whole here; whether it
  fits \<^verbatim>\<open>rawCommand[MAX_INPUT]\<close> is tested by \<open>tokenized\<close>, the first to use it.
\<close>

partial_function (option) getCommand :: "Command \<Rightarrow> shell \<Rightarrow> (Command \<times> shell) option" where
  "getCommand cmnd st =
     (case stdin st of
        [] \<Rightarrow> getCommand cmnd (st\<lparr>stdout := stdout st @ '': ''\<rparr>)
      | line # later \<Rightarrow>
          (if int (length line) \<le> 1 \<or> hd line = CHR '' '' \<or> hd line = CHR ''#''
           then getCommand cmnd (st\<lparr>stdout := stdout st @ '': '', stdin := later\<rparr>)
           else Some (cmnd\<lparr>rawCommand := takeWhile (\<lambda>ch. ch \<noteq> CHR ''\<newline>'') line\<rparr>,
                      st\<lparr>stdout := stdout st @ '': '', stdin := later\<rparr>)))"

subsection \<open>\<^verbatim>\<open>routeCommand\<close>\<close>

datatype outcome =
    Continue shell
  | Exit int shell
  | Undefined fault
  | Exec string "string list" shell

text \<open>
  \<open>Continue\<close>: \<^verbatim>\<open>routeCommand\<close> returns to the loop of \<^verbatim>\<open>shell\<close>. \<open>Exit\<close>: the process has
  called \<^verbatim>\<open>exit\<close>. \<open>Undefined\<close>: the process has reached undefined behaviour. \<open>Exec\<close>: \<^verbatim>\<open>execvp\<close> has replaced the image of the child, with the program,
  its arguments, and the process (descriptors, dispositions) the program starts in.
\<close>

definition deferredNotice :: "bool \<Rightarrow> string" where
  "deferredNotice allowed =
     (if allowed then ''\<newline>Exiting foreground-only mode.\<newline>''
      else ''\<newline>Entering foreground-only mode (& will be ignored).\<newline>'')"

text \<open>The \<^verbatim>\<open>case(0)\<close> branch: the child.\<close>

definition routeCommand_child :: "platform \<Rightarrow> string \<Rightarrow> Command \<Rightarrow> shell \<Rightarrow> outcome" where
  "routeCommand_child P name cmnd0 st0 =
     (let st1 = st0\<lparr>sigtstp := SIG_IGN\<rparr>;
          (cmnd, st2) =
            (if backgroundProcess cmnd0 \<and> allowBackground st1
             then
               (let c1 = (if \<not> inputRedirect cmnd0 then cmnd0\<lparr>inputRedirect := True\<rparr>
                          else cmnd0);
                    c2 = (if \<not> outputRedirect c1 then c1\<lparr>outputRedirect := True\<rparr> else c1)
                in (c2, st1))
             else (cmnd0, sigintDefault st1))
      in case inputoutputRedirect P cmnd st2 of
           Inl dead \<Rightarrow> Exit EXIT_FAILURE dead
         | Inr st3 \<Rightarrow>
             (if execvp_sys P name then Exec name (argv cmnd) st3
              else Exit EXIT_FAILURE
                     (st3\<lparr>stderr := stderr st3 @ name @ '': no such file or directory.\<newline>''\<rparr>)))"

text \<open>
  \<^verbatim>\<open>waitpid(childPid,exitStatus,0)\<close> in the parent: the handlers run for the deliveries that
  arrive while the call is blocked, then the status is stored.
\<close>

definition waitpid_foreground :: "dispatch \<Rightarrow> shell \<Rightarrow> shell" where
  "waitpid_foreground D st =
     (fold deliver_SIGTSTP (tstp_during_wait D) st)\<lparr>exitStatus := wait_status D\<rparr>"

text \<open>The \<^verbatim>\<open>default\<close> branch: the parent.\<close>

definition routeCommand_parent :: "platform \<Rightarrow> dispatch \<Rightarrow> Command \<Rightarrow> shell \<Rightarrow> shell" where
  "routeCommand_parent P D cmnd st =
     (if backgroundProcess cmnd \<and> allowBackground st
      then st\<lparr>stdout := stdout st @ ''background pid is '' @ show_int (fork_result D)
                              @ ''\<newline>''\<rparr>
      else
        (let st1 = waitpid_foreground D st;
             st2 = (if WIFSIGNALED P (exitStatus st1)
                    then st1\<lparr>stdout := stdout st1 @ ''terminated by signal ''
                                  @ show_int (WTERMSIG P (exitStatus st1)) @ ''\<newline>''\<rparr>
                    else st1)
         in if sigtstpTriggered st2
            then st2\<lparr>stdout := stdout st2 @ deferredNotice (allowBackground st2),
                      sigtstpTriggered := False\<rparr>
            else st2))"

definition routeCommand :: "platform \<Rightarrow> dispatch \<Rightarrow> Command \<Rightarrow> shell \<Rightarrow> outcome" where
  "routeCommand P D cmnd st0 =
     (let st = st0\<lparr>processActive := True\<rparr> in
      case cell (args cmnd) 0 of
        None \<Rightarrow> Undefined NullDeref
      | Some name \<Rightarrow>
          (if name = ''cd''
           then Continue ((cd P (cell (args cmnd) 1) st)\<lparr>processActive := False\<rparr>)
           else if name = ''status''
           then Continue ((reportStatus P (exitStatus st) st)\<lparr>processActive := False\<rparr>)
           else if name = ''exit''
           then Exit 0 (burnEverything st)
           else if fork_result D = - 1
           then Exit 1 (st\<lparr>stderr := stderr st @ perror ''Hull Breach!\<newline>'' (fork_error D)\<rparr>)
           else if fork_result D = 0
           then routeCommand_child P name cmnd st
           else Continue ((routeCommand_parent P D cmnd st)\<lparr>processActive := False\<rparr>)))"

text \<open>
  The path of \<^verbatim>\<open>routeCommand\<close> that reaches \<^verbatim>\<open>waitpid\<close>: the command is no builtin, the
  process is the parent of a child that was forked, and the child is not left in the
  background.
\<close>

definition foreground_wait :: "dispatch \<Rightarrow> Command \<Rightarrow> shell \<Rightarrow> bool" where
  "foreground_wait D cmnd st =
     (case cell (args cmnd) 0 of
        None \<Rightarrow> False
      | Some name \<Rightarrow>
          name \<noteq> ''cd'' \<and> name \<noteq> ''status'' \<and> name \<noteq> ''exit''
          \<and> fork_result D \<noteq> - 1 \<and> fork_result D \<noteq> 0
          \<and> (if backgroundProcess cmnd then \<not> allowBackground st else True))"

subsection \<open>\<^verbatim>\<open>shell\<close>\<close>

text \<open>
  One pass of the loop of \<^verbatim>\<open>shell\<close>: a fresh command, the sweep of the reaper, the prompt,
  the parser, the dispatcher. \<open>None\<close> is a pass that never ends.
\<close>

definition shell_iteration ::
  "platform \<Rightarrow> (int \<times> int) list \<Rightarrow> dispatch \<Rightarrow> shell \<Rightarrow> outcome option" where
  "shell_iteration P reaped D st =
     (case getCommand calloc_Command (burnZombie P reaped st) of
        None \<Rightarrow> None
      | Some (cmnd, st1) \<Rightarrow>
          (case parseCommand (getpid P) cmnd of
             Inl f \<Rightarrow> Some (Undefined f)
           | Inr cmnd' \<Rightarrow> Some (routeCommand P D cmnd' st1)))"

subsection \<open>A platform to run the model on\<close>

text \<open>
  The status macros with the encoding of Linux (the low seven bits hold the terminating
  signal, the next byte the exit code), a file system with the directories \<^verbatim>\<open>/tmp\<close> and
  \<^verbatim>\<open>/home/user\<close> and the null device, and no \<^verbatim>\<open>HOME\<close> in the environment.
\<close>

definition sample_platform :: platform where
  "sample_platform =
     \<lparr>WIFEXITED = (\<lambda>s. s mod 128 = 0),
      WEXITSTATUS = (\<lambda>s. (s div 256) mod 256),
      WIFSIGNALED = (\<lambda>s. 0 < s mod 128 \<and> s mod 128 < 127),
      WTERMSIG = (\<lambda>s. s mod 128),
      getpid = 4242,
      getenv_HOME = None,
      chdir_sys = (\<lambda>dir path. if path = ''/tmp'' \<or> path = ''/home/user'' then Inr path
                               else Inl ''No such file or directory''),
      open_sys = (\<lambda>path flags. if path = ''/dev/null'' then None
                                else Some ''No such file or directory''),
      dup2_sys = (\<lambda>fd. None),
      execvp_sys = (\<lambda>name. True)\<rparr>"

definition sample_dispatch :: "int \<Rightarrow> sigaction_result list \<Rightarrow> int \<Rightarrow> dispatch" where
  "sample_dispatch child deliveries status =
     \<lparr>fork_result = child, fork_error = ''Resource temporarily unavailable'',
      tstp_during_wait = deliveries, wait_status = status\<rparr>"


text \<open>
  A command as the parser leaves it, for running the dispatcher: the arguments followed by
  the terminating \<^verbatim>\<open>NULL\<close>, and the background flag (with the flag set, \<^verbatim>\<open>numArgs\<close> still
  counts the marker).
\<close>

definition sample_cmnd :: "string list \<Rightarrow> bool \<Rightarrow> Command" where
  "sample_cmnd av bg =
     calloc_Command\<lparr>numArgs := int (length av) + (if bg then 1 else 0),
                    args := map Some av @ [None], backgroundProcess := bg\<rparr>"

subsection \<open>Predicates used in the statements\<close>

text \<open>What a prompt leaves alone: everything but the two streams it reads and writes.\<close>

definition prompt_frame :: "shell \<Rightarrow> shell \<Rightarrow> bool" where
  "prompt_frame s s' =
     (exitStatus s' = exitStatus s \<and> allowBackground s' = allowBackground s
      \<and> sigtstpTriggered s' = sigtstpTriggered s \<and> processActive s' = processActive s
      \<and> sigtstp s' = sigtstp s \<and> cwd s' = cwd s \<and> stderr s' = stderr s)"

text \<open>
  The token lists that the tokenising loop reads without a fault, when \<open>k\<close> arguments are
  stored already: every \<^verbatim>\<open><\<close> and \<^verbatim>\<open>>\<close> is followed by a target, the target with its
  terminator fits the 50 bytes of the file name, and there is a cell of \<^verbatim>\<open>args\<close> for every
  argument. And the lines that the first half of the parser reads without a fault.
\<close>

fun tokens_fit :: "nat \<Rightarrow> string list \<Rightarrow> bool" where
  "tokens_fit k [] = True"
| "tokens_fit k (token # rest) =
     (if token = ''<'' \<or> token = ''>'' then
        (case rest of
           [] \<Rightarrow> False
         | target # rest' \<Rightarrow> length target < FILE_SIZE \<and> tokens_fit k rest')
      else k < MAX_ARGS \<and> tokens_fit (Suc k) rest)"

definition line_fits :: "int \<Rightarrow> string \<Rightarrow> bool" where
  "line_fits own_pid line =
     (length line < MAX_INPUT \<and> length (expandPid own_pid line) < MAX_INPUT
      \<and> tokens_fit 0 (strtok_all (expandPid own_pid line)))"


section \<open>The parser\<close>

subsection \<open>Expansion of the process-id marker\<close>

lemmas show_eval = show_int_def show_nat.simps digit_char_def

lemma digit_char_not_dollar: "d < 10 \<Longrightarrow> digit_char d \<noteq> CHR ''$''"
proof -
  assume "d < 10"
  then have "''0123456789'' ! d \<in> set ''0123456789''"
    by (intro nth_mem) simp
  then show ?thesis
    by (auto simp: digit_char_def)
qed

lemma show_nat_no_dollar: "CHR ''$'' \<notin> set (show_nat n)"
proof (induction n rule: show_nat.induct)
  case (1 n)
  show ?case
  proof (cases "n < 10")
    case True
    then show ?thesis
      using digit_char_not_dollar [of n] by (subst show_nat.simps) auto
  next
    case False
    have "n mod 10 < 10" by simp
    then have "digit_char (n mod 10) \<noteq> CHR ''$''"
      by (rule digit_char_not_dollar)
    with False "1" show ?thesis
      by (subst show_nat.simps) auto
  qed
qed

lemma show_int_no_dollar: "CHR ''$'' \<notin> set (show_int i)"
  by (simp add: show_int_def show_nat_no_dollar)

lemma show_nat_nonempty: "show_nat n \<noteq> []"
  by (subst show_nat.simps) simp

lemma show_int_nonempty: "show_int i \<noteq> []"
  by (simp add: show_int_def show_nat_nonempty)

lemma show_int_hd: "hd (show_int i) \<noteq> CHR ''$''"
  by (metis hd_in_set show_int_nonempty show_int_no_dollar)

lemma substitute_no_dollar_prefix:
  "CHR ''$'' \<notin> set d \<Longrightarrow> substitute_markers p (d @ rest) = d @ substitute_markers p rest"
proof (induction d)
  case Nil
  then show ?case by simp
next
  case (Cons a d)
  show ?case
  proof (cases "d @ rest")
    case Nil
    then show ?thesis by simp
  next
    case (Cons b bs)
    with Cons.prems Cons.IH show ?thesis by auto
  qed
qed

lemma strstr_marker_Cons:
  "strstr (c # cs) marker = (if take 2 (c # cs) = marker then Some 0 else map_option Suc (strstr cs marker))"
  by (simp add: marker_def)

lemma substitute_before_marker:
  "strstr raw marker = Some pos \<Longrightarrow> X \<noteq> [] \<Longrightarrow> hd X \<noteq> CHR ''$'' \<Longrightarrow>
   substitute_markers p (take pos raw @ X) = take pos raw @ substitute_markers p X"
proof (induction raw arbitrary: pos)
  case Nil
  then show ?case by (simp add: marker_def)
next
  case (Cons c cs)
  show ?case
  proof (cases "take 2 (c # cs) = marker")
    case True
    with Cons.prems have "pos = 0" by (simp add: strstr_marker_Cons del: strstr.simps)
    then show ?thesis by simp
  next
    case False
    with Cons.prems obtain q where q: "strstr cs marker = Some q" "pos = Suc q"
      by (auto simp add: strstr_marker_Cons simp del: strstr.simps)
    have ih: "substitute_markers p (take q cs @ X) = take q cs @ substitute_markers p X"
      using Cons.IH [OF q(1) Cons.prems(2,3)] .
    obtain d ds where d: "take q cs @ X = d # ds"
      using Cons.prems(2) by (cases "take q cs @ X") auto
    have "\<not> (c = CHR ''$'' \<and> d = CHR ''$'')"
    proof (cases q)
      case 0
      with d have "d = hd X" by (cases X) auto
      with Cons.prems(3) show ?thesis by simp
    next
      case (Suc q')
      with q(1) have "cs \<noteq> []" by (auto simp: marker_def)
      with Suc d have "d = hd cs" by (cases cs) auto
      with False \<open>cs \<noteq> []\<close> show ?thesis by (cases cs) (auto simp: marker_def)
    qed
    then have "substitute_markers p (c # d # ds) = c # substitute_markers p (d # ds)"
      by auto
    with d ih q(2) show ?thesis by simp
  qed
qed

lemma substitute_at_marker:
  "strstr raw marker = Some pos \<Longrightarrow>
   substitute_markers p raw = take pos raw @ show_int p @ substitute_markers p (drop (pos + 2) raw)"
proof (induction raw arbitrary: pos)
  case Nil
  then show ?case by (simp add: marker_def)
next
  case (Cons c cs)
  show ?case
  proof (cases "take 2 (c # cs) = marker")
    case True
    with Cons.prems have "pos = 0" by (simp add: strstr_marker_Cons del: strstr.simps)
    moreover from True obtain cs' where "cs = CHR ''$'' # cs'" "c = CHR ''$''"
      by (cases cs) (auto simp: marker_def)
    ultimately show ?thesis by simp
  next
    case False
    with Cons.prems obtain q where q: "strstr cs marker = Some q" "pos = Suc q"
      by (auto simp add: strstr_marker_Cons simp del: strstr.simps)
    from q(1) obtain d ds where d: "cs = d # ds" by (cases cs) (auto simp: marker_def)
    with False have "\<not> (c = CHR ''$'' \<and> d = CHR ''$'')" by (auto simp: marker_def)
    then have "substitute_markers p (c # d # ds) = c # substitute_markers p (d # ds)"
      by auto
    with d q Cons.IH [OF q(1)] show ?thesis by simp
  qed
qed

lemma substitute_no_marker:
  "strstr raw marker = None \<Longrightarrow> substitute_markers p raw = raw"
proof (induction p raw rule: substitute_markers.induct)
  case (1 p a b cs)
  then show ?case by (auto simp: marker_def split: if_splits)
qed simp_all

lemma expandPid_refines: "expandPid p raw = substitute_markers p raw"
proof (induction p raw rule: expandPid.induct)
  case (1 p raw)
  show ?case
  proof (cases "strstr raw marker")
    case None
    then show ?thesis by (subst expandPid.simps) (simp add: substitute_no_marker)
  next
    case (Some pos)
    let ?tail = "drop (pos + 2) raw"
    have X: "show_int p @ ?tail \<noteq> []" "hd (show_int p @ ?tail) \<noteq> CHR ''$''"
      using show_int_nonempty [of p] show_int_hd [of p]
      by (simp_all add: hd_append)
    have "expandPid p raw = expandPid p (take pos raw @ show_int p @ ?tail)"
      using Some by (subst expandPid.simps) simp
    also have "\<dots> = substitute_markers p (take pos raw @ show_int p @ ?tail)"
      using "1" [OF Some] .
    also have "\<dots> = take pos raw @ substitute_markers p (show_int p @ ?tail)"
      using substitute_before_marker [OF Some X] .
    also have "\<dots> = take pos raw @ show_int p @ substitute_markers p ?tail"
      by (simp add: substitute_no_dollar_prefix show_int_no_dollar)
    also have "\<dots> = substitute_markers p raw"
      using substitute_at_marker [OF Some] by simp
    finally show ?thesis .
  qed
qed


lemma substitute_markers_length:
  "length (substitute_markers p raw) + 2 * count_markers raw
     = length raw + count_markers raw * length (show_int p)"
  by (induction p raw rule: substitute_markers.induct) auto



text \<open>A line with single, adjacent and overlapping markers.\<close>

lemma expandPid_example:
  "expandPid 4242 ''echo $$ $$$$ a$$$b'' = ''echo 4242 42424242 a4242$b''"
  by (simp add: expandPid.simps marker_def show_eval)

text \<open>
  A round of the loop writes a string that is no longer than the longer of the line and
  its expansion, so the test of these two in \<open>tokenized\<close> covers every round.
\<close>

lemma strstr_marker_bound: "strstr raw marker = Some pos \<Longrightarrow> pos + 2 \<le> length raw"
proof (induction raw arbitrary: pos)
  case Nil
  then show ?case by (simp add: marker_def)
next
  case (Cons c cs)
  show ?case
  proof (cases "take 2 (c # cs) = marker")
    case True
    then have "length (take 2 (c # cs)) = 2"
      by (simp add: marker_def)
    then have "2 \<le> length (c # cs)"
      by (auto simp: min_def split: if_splits)
    moreover have "pos = 0"
      using Cons.prems True by (simp add: marker_def)
    ultimately show ?thesis by simp
  next
    case False
    with Cons.prems obtain q where q: "strstr cs marker = Some q" "pos = Suc q"
      by (auto simp: marker_def)
    from Cons.IH [OF q(1)] q(2) show ?thesis by simp
  qed
qed

lemma expandPid_round_fits:
  assumes found: "strstr raw marker = Some pos"
      and before: "length raw < MAX_INPUT" and after: "length (expandPid p raw) < MAX_INPUT"
  shows "length (take pos raw @ show_int p @ drop (pos + 2) raw) < MAX_INPUT
       \<and> expandPid p (take pos raw @ show_int p @ drop (pos + 2) raw) = expandPid p raw"
proof -
  let ?next = "take pos raw @ show_int p @ drop (pos + 2) raw"
  have "pos + 2 \<le> length raw"
    using found by (rule strstr_marker_bound)
  then have len: "length ?next + 2 = length raw + length (show_int p)"
    by simp
  have same: "expandPid p raw = expandPid p ?next"
    using found by (subst expandPid.simps) simp
  have total: "length (expandPid p ?next) + 2 * count_markers ?next
      = length ?next + count_markers ?next * length (show_int p)"
    unfolding expandPid_refines by (rule substitute_markers_length)
  have "length ?next < MAX_INPUT"
  proof (cases "2 \<le> length (show_int p)")
    case True
    then have "2 * count_markers ?next \<le> count_markers ?next * length (show_int p)"
      by simp
    with total have "length ?next \<le> length (expandPid p ?next)"
      by linarith
    with after same show ?thesis by simp
  next
    case False
    with len before show ?thesis by simp
  qed
  with same show ?thesis by simp
qed

subsection \<open>The tokenising loop and the background marker\<close>





text \<open>
  The loop completes exactly on the token lists that fit, and the first half of the parser
  exactly on the lines that fit.
\<close>

lemma tokenLoop_completes:
  "numArgs c = int k \<Longrightarrow> (\<exists>c'. tokenLoop toks c = Inr c') = tokens_fit k toks"
proof (induction toks c arbitrary: k rule: tokenLoop.induct)
  case (1 c)
  show ?case by simp
next
  case (2 token rest c)
  show ?case
  proof (cases "token = ''<''")
    case True
    show ?thesis
    proof (cases rest)
      case Nil
      with True show ?thesis by simp
    next
      case (Cons target rest')
      show ?thesis
      proof (cases "FILE_SIZE \<le> length target")
        case long: True
        with True Cons show ?thesis by simp
      next
        case False
        have "(\<exists>c'. tokenLoop rest' (c\<lparr>inputRedirect := True, inputFile := target\<rparr>) = Inr c')
            = tokens_fit k rest'"
          using "2.prems" by (intro "2.IH"(1) [OF True Cons False]) simp
        with True Cons False show ?thesis by simp
      qed
    qed
  next
    case notlt: False
    show ?thesis
    proof (cases "token = ''>''")
      case True
      show ?thesis
      proof (cases rest)
        case Nil
        with notlt True show ?thesis by simp
      next
        case (Cons target rest')
        show ?thesis
        proof (cases "FILE_SIZE \<le> length target")
          case long: True
          with notlt True Cons show ?thesis by simp
        next
          case False
          have "(\<exists>c'. tokenLoop rest' (c\<lparr>outputRedirect := True, outputFile := target\<rparr>) = Inr c')
              = tokens_fit k rest'"
            using "2.prems" by (intro "2.IH"(2) [OF notlt True Cons False]) simp
          with notlt True Cons False show ?thesis by simp
        qed
      qed
    next
      case False
      show ?thesis
      proof (cases "k < MAX_ARGS")
        case room: True
        let ?c1 = "c\<lparr>args := store (args c) (nat (numArgs c)) (Some token)\<rparr>"
        have w: "args_write c (numArgs c) (Some token) = Inr ?c1"
          using "2.prems" room by (simp add: args_write_def)
        have "(\<exists>c'. tokenLoop rest (?c1\<lparr>numArgs := numArgs ?c1 + 1\<rparr>) = Inr c')
            = tokens_fit (Suc k) rest"
          using "2.prems" by (intro "2.IH"(3) [OF notlt False w]) simp
        with notlt False w room show ?thesis by simp
      next
        case full: False
        then have "args_write c (numArgs c) (Some token) = Inl OutOfBounds"
          using "2.prems" by (simp add: args_write_def)
        with notlt False full show ?thesis by simp
      qed
    qed
  qed
qed

lemma tokenized_completes:
  "(\<exists>ct. tokenized p (readCommand line) = Inr ct) = line_fits p line"
proof -
  have "(\<exists>ct. tokenLoop (strtok_all (expandPid p line))
            ((readCommand line)\<lparr>rawCommand := expandPid p line\<rparr>) = Inr ct)
      = tokens_fit 0 (strtok_all (expandPid p line))"
    by (rule tokenLoop_completes) (simp add: readCommand_def calloc_Command_def)
  then show ?thesis
    by (auto simp: tokenized_def line_fits_def Let_def readCommand_def)
qed





lemmas parse_eval = parseCommand_def tokenized_def readCommand_def calloc_Command_def
  expandPid.simps marker_def strtok_all_def markBackground_def args_read_def args_write_def
  cell_def store_def Let_def MAX_ARGS_def MAX_INPUT_def FILE_SIZE_def

text \<open>The whole parser on a line with a marker, an argument list and the background marker.\<close>

lemma parseCommand_example:
  "parseCommand 4242 (readCommand ''kill -9 $$ &'')
     = Inr (calloc_Command\<lparr>rawCommand := ''kill -9 4242 &'', numArgs := 4,
              args := [Some ''kill'', Some ''-9'', Some ''4242'', None],
              backgroundProcess := True\<rparr>)"
  by (simp add: parse_eval show_eval)






text \<open>
  Claim C5. The claim asks that a line whose argument sequence is empty after the loop is
  parsed without a read outside the array. The source has no such guard: with
  \<^verbatim>\<open>numArgs == 0\<close> the test \<^verbatim>\<open>strcmp(cmnd->args[cmnd->numArgs-1], "&")\<close> reads \<^verbatim>\<open>args[-1]\<close>.
  Every such line ends in that fault.
\<close>

theorem empty_arguments_read_out_of_bounds:
  assumes "tokenized p (readCommand line) = Inr ct" and "numArgs ct = 0"
  shows "parseCommand p (readCommand line) = Inl OutOfBounds"
  using assms by (simp add: parseCommand_def markBackground_def args_read_def)

text \<open>The theorem at the line \<^verbatim>\<open>< in.txt\<close>.\<close>

theorem empty_arguments_read_out_of_bounds_witness:
  "parseCommand 4242 (readCommand ''< in.txt'') = Inl OutOfBounds"
proof -
  have a: "tokenized 4242 (readCommand ''< in.txt'')
     = Inr (calloc_Command\<lparr>rawCommand := ''< in.txt'', inputRedirect := True, inputFile := ''in.txt''\<rparr>)"
    by (simp add: parse_eval)
  show ?thesis
    by (rule empty_arguments_read_out_of_bounds [OF a]) (simp add: calloc_Command_def)
qed

lemma tokenLoop_dangling_operator:
  "tokenLoop pre c = Inr c1 \<Longrightarrow> op = ''<'' \<or> op = ''>'' \<Longrightarrow> tokenLoop (pre @ [op]) c = Inl NullDeref"
proof (induction pre c rule: tokenLoop.induct)
  case (1 c)
  then show ?case by auto
next
  case (2 token rest c)
  show ?case
  proof (cases "token = ''<''")
    case True
    with "2.prems"(1) obtain target rest' where r: "rest = target # rest'"
      by (cases rest) auto
    have fits: "\<not> FILE_SIZE \<le> length target"
      using "2.prems"(1) True r by (auto split: if_splits)
    with True r "2.prems" "2.IH"(1) [OF True r fits] show ?thesis by simp
  next
    case notlt: False
    show ?thesis
    proof (cases "token = ''>''")
      case True
      with notlt "2.prems"(1) obtain target rest' where r: "rest = target # rest'"
        by (cases rest) auto
      have fits: "\<not> FILE_SIZE \<le> length target"
        using "2.prems"(1) notlt True r by (auto split: if_splits)
      with notlt True r "2.prems" "2.IH"(2) [OF notlt True r fits] show ?thesis by simp
    next
      case False
      obtain c' where w: "args_write c (numArgs c) (Some token) = Inr c'"
        using "2.prems"(1) notlt False by (cases "args_write c (numArgs c) (Some token)") auto
      with "2.prems" notlt False "2.IH"(3) [OF notlt False w] show ?thesis by simp
    qed
  qed
qed

text \<open>
  Claim C6. The claim asks that \<^verbatim>\<open><\<close> or \<^verbatim>\<open>>\<close> with no token after it leaves the target
  empty. The source copies the result of \<^verbatim>\<open>strtok\<close> with \<^verbatim>\<open>strcpy\<close> without a test, so
  when the operator is the last token of the line (and the tokens before it were read
  without a fault) parsing does not complete: the copy reads \<^verbatim>\<open>NULL\<close>, on every such line
  that fits \<^verbatim>\<open>rawCommand\<close>; a line that does not fit it has run over the struct before.
\<close>

theorem operator_without_target_faults:
  assumes "strtok_all (expandPid p line) = pre @ [op]"
      and "op = ''<'' \<or> op = ''>''"
      and "tokenLoop pre ((readCommand line)\<lparr>rawCommand := expandPid p line\<rparr>) = Inr c1"
  shows "parseCommand p (readCommand line)
     = (if MAX_INPUT \<le> length line \<or> MAX_INPUT \<le> length (expandPid p line)
        then Inl BufferOverflow else Inl NullDeref)"
proof -
  have raw: "rawCommand (readCommand line) = line"
    by (simp add: readCommand_def)
  have "tokenized p (readCommand line)
     = (if MAX_INPUT \<le> length line \<or> MAX_INPUT \<le> length (expandPid p line)
        then Inl BufferOverflow else Inl NullDeref)"
    using tokenLoop_dangling_operator [OF assms(3,2)]
    by (simp add: tokenized_def Let_def raw assms(1))
  then show ?thesis
    by (simp add: parseCommand_def)
qed

text \<open>The theorem at \<^verbatim>\<open>cat <\<close> and at \<^verbatim>\<open>sort < in >\<close>.\<close>

theorem operator_without_target_faults_witness:
  "parseCommand 4242 (readCommand ''cat <'') = Inl NullDeref
   \<and> parseCommand 4242 (readCommand ''sort < in >'') = Inl NullDeref"
proof -
  have a: "strtok_all (expandPid 4242 ''cat <'') = [''cat''] @ [''<'']"
    by (simp add: parse_eval)
  have b: "tokenLoop [''cat''] ((readCommand ''cat <'')\<lparr>rawCommand := expandPid 4242 ''cat <''\<rparr>)
      = Inr (calloc_Command\<lparr>rawCommand := ''cat <'', numArgs := 1, args := [Some ''cat'']\<rparr>)"
    by (simp add: parse_eval)
  have c: "strtok_all (expandPid 4242 ''sort < in >'') = [''sort'', ''<'', ''in''] @ [''>'']"
    by (simp add: parse_eval)
  have d: "tokenLoop [''sort'', ''<'', ''in'']
        ((readCommand ''sort < in >'')\<lparr>rawCommand := expandPid 4242 ''sort < in >''\<rparr>)
      = Inr (calloc_Command\<lparr>rawCommand := ''sort < in >'', numArgs := 1, args := [Some ''sort''],
               inputRedirect := True, inputFile := ''in''\<rparr>)"
    by (simp add: parse_eval)
  have e: "expandPid 4242 ''cat <'' = ''cat <''" "expandPid 4242 ''sort < in >'' = ''sort < in >''"
    by (simp_all add: expandPid.simps marker_def)
  show ?thesis
    using operator_without_target_faults [OF a _ b] operator_without_target_faults [OF c _ d]
    by (simp add: e MAX_INPUT_def)
qed

section \<open>The line reader\<close>

lemma getCommand_needs_input:
  assumes run: "getCommand cmnd st = Some y"
  shows "stdin st \<noteq> []"
proof (rule getCommand.raw_induct [where P = "\<lambda>c s r. stdin s \<noteq> []", OF _ run])
  fix f :: "Command \<Rightarrow> shell \<Rightarrow> (Command \<times> shell) option" and c s r
  assume IH: "\<And>c' s' r'. f c' s' = Some r' \<Longrightarrow> stdin s' \<noteq> []"
  assume body: "(case stdin s of
        [] \<Rightarrow> f c (s\<lparr>stdout := stdout s @ '': ''\<rparr>)
      | line # later \<Rightarrow>
          (if int (length line) \<le> 1 \<or> hd line = CHR '' '' \<or> hd line = CHR ''#''
           then f c (s\<lparr>stdout := stdout s @ '': '', stdin := later\<rparr>)
           else Some (c\<lparr>rawCommand := takeWhile (\<lambda>ch. ch \<noteq> CHR ''\<newline>'') line\<rparr>,
                      s\<lparr>stdout := stdout s @ '': '', stdin := later\<rparr>))) = Some r"
  show "stdin s \<noteq> []"
  proof
    assume e: "stdin s = []"
    with body have "f c (s\<lparr>stdout := stdout s @ '': ''\<rparr>) = Some r"
      by simp
    then have "stdin (s\<lparr>stdout := stdout s @ '': ''\<rparr>) \<noteq> []"
      by (rule IH)
    with e show False by simp
  qed
qed

lemma reportStatus_stdin: "stdin (reportStatus P w st) = stdin st"
  by (simp add: reportStatus_def)

lemma burnZombie_stdin: "stdin (burnZombie P zs st) = stdin st"
  by (induction P zs st rule: burnZombie.induct) (simp_all add: reportStatus_stdin)

text \<open>
  Claim C7. The claim asks that at end of input the line reader makes the shell terminate.
  In the source \<^verbatim>\<open>getline\<close> returns \<open>-1\<close>, the test \<^verbatim>\<open>numChars <= 1\<close> takes the branch of the
  empty line, and the loop prompts again: at end of input \<^verbatim>\<open>getCommand\<close> neither returns
  nor exits, and so the pass of the loop of \<^verbatim>\<open>shell\<close> that reaches it never ends.
\<close>

theorem getCommand_spins_at_end_of_input:
  "getCommand cmnd (st\<lparr>stdin := []\<rparr>) = None
   \<and> shell_iteration P reaped D (st\<lparr>stdin := []\<rparr>) = None"
proof -
  have never: "getCommand c s = None" if "stdin s = []" for c s
  proof (cases "getCommand c s")
    case None
    then show ?thesis .
  next
    case (Some y)
    then have "stdin s \<noteq> []"
      by (rule getCommand_needs_input)
    with that show ?thesis by simp
  qed
  have "stdin (burnZombie P reaped (st\<lparr>stdin := []\<rparr>)) = []"
    by (simp add: burnZombie_stdin)
  then have "getCommand calloc_Command (burnZombie P reaped (st\<lparr>stdin := []\<rparr>)) = None"
    by (rule never)
  then have "shell_iteration P reaped D (st\<lparr>stdin := []\<rparr>) = None"
    by (simp add: shell_iteration_def)
  moreover have "getCommand cmnd (st\<lparr>stdin := []\<rparr>) = None"
    by (rule never) simp
  ultimately show ?thesis by simp
qed

lemma getCommand_frame:
  assumes run: "getCommand cmnd st = Some y"
  shows "prompt_frame st (snd y)"
proof (rule getCommand.raw_induct [where P = "\<lambda>c s r. prompt_frame s (snd r)", OF _ run])
  fix f :: "Command \<Rightarrow> shell \<Rightarrow> (Command \<times> shell) option" and c s r
  assume IH: "\<And>c' s' r'. f c' s' = Some r' \<Longrightarrow> prompt_frame s' (snd r')"
  assume body: "(case stdin s of
        [] \<Rightarrow> f c (s\<lparr>stdout := stdout s @ '': ''\<rparr>)
      | line # later \<Rightarrow>
          (if int (length line) \<le> 1 \<or> hd line = CHR '' '' \<or> hd line = CHR ''#''
           then f c (s\<lparr>stdout := stdout s @ '': '', stdin := later\<rparr>)
           else Some (c\<lparr>rawCommand := takeWhile (\<lambda>ch. ch \<noteq> CHR ''\<newline>'') line\<rparr>,
                      s\<lparr>stdout := stdout s @ '': '', stdin := later\<rparr>))) = Some r"
  show "prompt_frame s (snd r)"
  proof (cases "stdin s")
    case Nil
    with body have "f c (s\<lparr>stdout := stdout s @ '': ''\<rparr>) = Some r"
      by simp
    from IH [OF this] show ?thesis by (simp add: prompt_frame_def)
  next
    case (Cons line later)
    show ?thesis
    proof (cases "int (length line) \<le> 1 \<or> hd line = CHR '' '' \<or> hd line = CHR ''#''")
      case True
      with Cons body
      have "f c (s\<lparr>stdout := stdout s @ '': '', stdin := later\<rparr>) = Some r"
        by simp
      from IH [OF this] show ?thesis by (simp add: prompt_frame_def)
    next
      case False
      with Cons body show ?thesis by (auto simp: prompt_frame_def)
    qed
  qed
qed

section \<open>The dispatcher\<close>

subsection \<open>The last exit status\<close>

lemmas route_eval = routeCommand_def routeCommand_parent_def routeCommand_child_def
  waitpid_foreground_def reportStatus_def foreground_wait_def cell_def Let_def
  sample_platform_def sample_dispatch_def shell_start_def sigtstpSet_def sigintIgnore_def
  sigintDefault_def calloc_Command_def deliver_SIGTSTP_def foregroundonly_def allowbackground_def
  deferredNotice_def bgOn_def bgOff_def sample_cmnd_def

lemma reportStatus_exitStatus: "exitStatus (reportStatus P w st) = exitStatus st"
  by (simp add: reportStatus_def)

lemma burnZombie_exitStatus: "exitStatus (burnZombie P zs st) = exitStatus st"
  by (induction P zs st rule: burnZombie.induct) (simp_all add: reportStatus_exitStatus)

lemma deliver_exitStatus: "exitStatus (deliver_SIGTSTP r st) = exitStatus st"
  by (simp add: deliver_SIGTSTP_def foregroundonly_def allowbackground_def Let_def
      split: disposition.splits tstp_handler.splits)

lemma cd_exitStatus: "exitStatus (cd P dir st) = exitStatus st"
  by (simp add: cd_def chdir_def split: option.splits sum.splits)

lemma routeCommand_exitStatus:
  "routeCommand P D cmnd st = Continue st' \<Longrightarrow>
   exitStatus st' = (if foreground_wait D cmnd st then wait_status D else exitStatus st)"
  by (auto simp: routeCommand_def foreground_wait_def routeCommand_parent_def
      routeCommand_child_def waitpid_foreground_def Let_def reportStatus_exitStatus cd_exitStatus
      split: option.splits if_splits sum.splits prod.splits)

text \<open>
  Claim C9. \<^verbatim>\<open>exitStatus\<close> is the same after the reaper's sweep, whatever children it
  reaps, after a delivery of \<^verbatim>\<open>SIGTSTP\<close>, and after a prompt; a call of \<^verbatim>\<open>routeCommand\<close> that
  returns changes it only on the path that waits for a foreground child, where it becomes
  the status \<^verbatim>\<open>waitpid\<close> stored.
\<close>

theorem exitStatus_written_only_by_foreground_wait:
  "exitStatus (burnZombie P zs st) = exitStatus st
   \<and> exitStatus (deliver_SIGTSTP r st) = exitStatus st
   \<and> (\<forall>y. getCommand c st = Some y \<longrightarrow> exitStatus (snd y) = exitStatus st)
   \<and> (\<forall>st'. routeCommand P D cmnd st = Continue st' \<longrightarrow>
         exitStatus st' = (if foreground_wait D cmnd st then wait_status D else exitStatus st))"
  using burnZombie_exitStatus [of P zs st] deliver_exitStatus [of r st]
    getCommand_frame [of c st] routeCommand_exitStatus [of P D cmnd st]
  by (simp add: prompt_frame_def)

text \<open>
  The theorem with two children to reap, at \<^verbatim>\<open>sleep 5 &\<close> and \<^verbatim>\<open>sleep 5\<close> dispatched with
  the last status 768, and at a prompt that skips a comment and reads \<^verbatim>\<open>ls -la\<close>.
\<close>

theorem exitStatus_written_only_by_foreground_wait_witness:
  "exitStatus (burnZombie sample_platform [(101, 0), (102, 9)]
       ((shell_start ''/'' [])\<lparr>exitStatus := 768\<rparr>)) = 768
   \<and> (\<exists>st'. routeCommand sample_platform (sample_dispatch 103 [] 9)
               (sample_cmnd [''sleep'', ''5''] True) ((shell_start ''/'' [])\<lparr>exitStatus := 768\<rparr>)
             = Continue st' \<and> exitStatus st' = 768)
   \<and> (\<exists>st'. routeCommand sample_platform (sample_dispatch 103 [] 9)
               (sample_cmnd [''sleep'', ''5''] False) ((shell_start ''/'' [])\<lparr>exitStatus := 768\<rparr>)
             = Continue st' \<and> exitStatus st' = 9)
   \<and> (\<exists>y. getCommand calloc_Command
              ((shell_start ''/'' [''#note'' @ ''\<newline>'', ''ls -la'' @ ''\<newline>''])\<lparr>exitStatus := 768\<rparr>)
             = Some y \<and> rawCommand (fst y) = ''ls -la'' \<and> exitStatus (snd y) = 768)"
proof -
  let ?s = "(shell_start ''/'' [])\<lparr>exitStatus := 768\<rparr>"
  let ?D = "sample_dispatch 103 [] 9"
  have e: "exitStatus ?s = 768" by simp
  have bgc: "\<not> foreground_wait ?D (sample_cmnd [''sleep'', ''5''] True) ?s"
    and fgc: "foreground_wait ?D (sample_cmnd [''sleep'', ''5''] False) ?s"
    and w: "wait_status ?D = 9"
    by (simp_all add: route_eval)
  obtain s1 where r1: "routeCommand sample_platform ?D (sample_cmnd [''sleep'', ''5''] True) ?s = Continue s1"
    by (simp add: route_eval)
  obtain s2 where r2: "routeCommand sample_platform ?D (sample_cmnd [''sleep'', ''5''] False) ?s = Continue s2"
    by (simp add: route_eval)
  have 1: "exitStatus (burnZombie sample_platform [(101, 0), (102, 9)] ?s) = 768"
    using exitStatus_written_only_by_foreground_wait [of sample_platform "[(101, 0), (102, 9)]" ?s]
    by simp
  have 2: "exitStatus s1 = 768"
    using exitStatus_written_only_by_foreground_wait [of sample_platform "[]" ?s _ _ ?D
        "sample_cmnd [''sleep'', ''5''] True"] r1 bgc
    by simp
  have 3: "exitStatus s2 = 9"
    using exitStatus_written_only_by_foreground_wait [of sample_platform "[]" ?s _ _ ?D
        "sample_cmnd [''sleep'', ''5''] False"] r2 fgc w
    by simp
  let ?t = "(shell_start ''/'' [''#note'' @ ''\<newline>'', ''ls -la'' @ ''\<newline>''])\<lparr>exitStatus := 768\<rparr>"
  obtain y where g: "getCommand calloc_Command ?t = Some y" and l: "rawCommand (fst y) = ''ls -la''"
    by (simp add: getCommand.simps shell_start_def sigtstpSet_def sigintIgnore_def)
  have 4: "exitStatus (snd y) = 768"
    using exitStatus_written_only_by_foreground_wait [of sample_platform "[]" ?t _ calloc_Command] g
    by (cases y) auto
  from 1 2 3 4 r1 r2 g l show ?thesis by blast
qed

lemma foreground_wait_returns:
  assumes "foreground_wait D cmnd st"
  shows "routeCommand P D cmnd st
     = Continue ((routeCommand_parent P D cmnd (st\<lparr>processActive := True\<rparr>))\<lparr>processActive := False\<rparr>)"
  using assms
  by (auto simp: foreground_wait_def routeCommand_def Let_def split: option.splits)

lemma foreground_wait_status:
  assumes "foreground_wait D cmnd st"
  shows "exitStatus (routeCommand_parent P D cmnd (st\<lparr>processActive := True\<rparr>)) = wait_status D"
  using assms
  by (auto simp: foreground_wait_def routeCommand_parent_def waitpid_foreground_def Let_def
      split: option.splits if_splits)

lemma status_builtin:
  assumes "cell (args sc) 0 = Some ''status''"
  shows "routeCommand P D sc st
     = Continue ((reportStatus P (exitStatus st) (st\<lparr>processActive := True\<rparr>))\<lparr>processActive := False\<rparr>)"
  using assms by (simp add: routeCommand_def Let_def)

text \<open>
  Claim C8. Let a foreground command be waited for, and let the wait store the status
  \<open>w\<close>. In any later state with that \<^verbatim>\<open>exitStatus\<close> (the sweep of the reaper and the prompt
  keep it, see \<open>burnZombie_exitStatus\<close> and \<open>getCommand_frame\<close>) the builtin \<^verbatim>\<open>status\<close>
  appends exactly \<^verbatim>\<open>exit value c\<close> and a newline when \<open>w\<close> is a normal exit with code \<open>c\<close>,
  and exactly \<^verbatim>\<open>terminated by signal s\<close> and a newline when \<open>w\<close> is a death by signal \<open>s\<close>.
\<close>

theorem status_reports_last_foreground_result:
  assumes fg: "foreground_wait D fg st"
      and sc: "cell (args sc) 0 = Some ''status''"
  shows "\<exists>st1. routeCommand P D fg st = Continue st1 \<and>
     (\<forall>mid. exitStatus mid = exitStatus st1 \<longrightarrow>
        (\<exists>st2. routeCommand P D' sc mid = Continue st2 \<and>
           stdout st2 = stdout mid @
             (if WIFEXITED P (wait_status D)
              then ''exit value '' @ show_int (WEXITSTATUS P (wait_status D)) @ ''\<newline>''
              else if WIFSIGNALED P (wait_status D)
              then ''terminated by signal '' @ show_int (WTERMSIG P (wait_status D)) @ ''\<newline>''
              else [])))"
proof -
  let ?st1 = "(routeCommand_parent P D fg (st\<lparr>processActive := True\<rparr>))\<lparr>processActive := False\<rparr>"
  have r1: "routeCommand P D fg st = Continue ?st1"
    using fg by (rule foreground_wait_returns)
  have e1: "exitStatus ?st1 = wait_status D"
    using foreground_wait_status [OF fg, of P] by simp
  have "\<exists>st2. routeCommand P D' sc mid = Continue st2 \<and>
           stdout st2 = stdout mid @
             (if WIFEXITED P (wait_status D)
              then ''exit value '' @ show_int (WEXITSTATUS P (wait_status D)) @ ''\<newline>''
              else if WIFSIGNALED P (wait_status D)
              then ''terminated by signal '' @ show_int (WTERMSIG P (wait_status D)) @ ''\<newline>''
              else [])"
    if "exitStatus mid = exitStatus ?st1" for mid
    using that e1 status_builtin [OF sc, of P D' mid]
    by (simp add: reportStatus_def)
  with r1 show ?thesis by blast
qed

text \<open>The theorem at exit code 3 (status 768) and at signal 9 (status 9).\<close>

theorem status_reports_last_foreground_result_witness:
  "(\<exists>st1 st2. routeCommand sample_platform (sample_dispatch 100 [] 768) (sample_cmnd [''sleep'', ''5''] False) (shell_start ''/'' []) = Continue st1
      \<and> routeCommand sample_platform (sample_dispatch 0 [] 0) (sample_cmnd [''status''] False)
            (burnZombie sample_platform [] st1) = Continue st2
      \<and> stdout st2 = stdout (burnZombie sample_platform [] st1) @ ''exit value 3'' @ ''\<newline>'')
   \<and> (\<exists>st1 st2. routeCommand sample_platform (sample_dispatch 100 [] 9) (sample_cmnd [''sleep'', ''5''] False) (shell_start ''/'' []) = Continue st1
      \<and> routeCommand sample_platform (sample_dispatch 0 [] 0) (sample_cmnd [''status''] False)
            (burnZombie sample_platform [] st1) = Continue st2
      \<and> stdout st2 = stdout (burnZombie sample_platform [] st1) @ ''terminated by signal 9'' @ ''\<newline>'')"
proof -
  have fg: "foreground_wait (sample_dispatch 100 [] w) (sample_cmnd [''sleep'', ''5''] False) (shell_start ''/'' [])" for w
    by (simp add: route_eval sample_cmnd_def)
  have sc: "cell (args (sample_cmnd [''status''] False)) 0 = Some ''status''"
    by (simp add: cell_def sample_cmnd_def)
  have a: "WIFEXITED sample_platform 768" "WEXITSTATUS sample_platform 768 = 3"
    "\<not> WIFEXITED sample_platform 9" "WIFSIGNALED sample_platform 9" "WTERMSIG sample_platform 9 = 9"
    by (simp_all add: sample_platform_def)
  have s: "show_int 3 = ''3''" "show_int 9 = ''9''"
    by (simp_all add: show_eval)
  have w: "wait_status (sample_dispatch 100 [] w) = w" for w
    by (simp add: sample_dispatch_def)
  from status_reports_last_foreground_result [OF fg [of 768] sc, of sample_platform "sample_dispatch 0 [] 0"]
  obtain st1 where 1: "routeCommand sample_platform (sample_dispatch 100 [] 768) (sample_cmnd [''sleep'', ''5''] False) (shell_start ''/'' []) = Continue st1"
    and 2: "\<And>mid. exitStatus mid = exitStatus st1 \<Longrightarrow>
        \<exists>st2. routeCommand sample_platform (sample_dispatch 0 [] 0) (sample_cmnd [''status''] False) mid = Continue st2 \<and>
           stdout st2 = stdout mid @ ''exit value 3'' @ ''\<newline>''"
    unfolding w using a s by auto
  from status_reports_last_foreground_result [OF fg [of 9] sc, of sample_platform "sample_dispatch 0 [] 0"]
  obtain st1' where 3: "routeCommand sample_platform (sample_dispatch 100 [] 9) (sample_cmnd [''sleep'', ''5''] False) (shell_start ''/'' []) = Continue st1'"
    and 4: "\<And>mid. exitStatus mid = exitStatus st1' \<Longrightarrow>
        \<exists>st2. routeCommand sample_platform (sample_dispatch 0 [] 0) (sample_cmnd [''status''] False) mid = Continue st2 \<and>
           stdout st2 = stdout mid @ ''terminated by signal 9'' @ ''\<newline>''"
    unfolding w using a s by auto
  from 1 2 [of "burnZombie sample_platform [] st1"] 3 4 [of "burnZombie sample_platform [] st1'"]
  show ?thesis by auto
qed

subsection \<open>\<^verbatim>\<open>cd\<close>\<close>

lemma perror_nonempty: "perror msg e \<noteq> []"
  by (simp add: perror_def)

text \<open>
  Claim C10. The builtin \<^verbatim>\<open>cd\<close> always returns to the loop and writes nothing to the
  standard output. It writes to the standard error exactly when it has an argument and
  \<^verbatim>\<open>chdir\<close> to it fails. Without an argument nothing is written, and when the change to
  \<^verbatim>\<open>HOME\<close> fails (the variable is not set, or \<^verbatim>\<open>chdir\<close> refuses) the working directory is
  the one before.
\<close>

theorem cd_reports_only_explicit_failure:
  assumes "cell (args cmnd) 0 = Some ''cd''"
  shows "\<exists>st'. routeCommand P D cmnd st = Continue st' \<and> stdout st' = stdout st
     \<and> (stderr st' \<noteq> stderr st)
          = (\<exists>dir e. cell (args cmnd) 1 = Some dir \<and> chdir_sys P (cwd st) dir = Inl e)
     \<and> (case cell (args cmnd) 1 of
           None \<Rightarrow>
             stderr st' = stderr st
             \<and> (case getenv_HOME P of
                  None \<Rightarrow> cwd st' = cwd st
                | Some home \<Rightarrow>
                    (case chdir_sys P (cwd st) home of
                       Inl e \<Rightarrow> cwd st' = cwd st
                     | Inr d \<Rightarrow> cwd st' = d))
         | Some dir \<Rightarrow>
             (case chdir_sys P (cwd st) dir of
                Inl e \<Rightarrow> stderr st' = stderr st @ perror ''Nope'' e \<and> cwd st' = cwd st
              | Inr d \<Rightarrow> stderr st' = stderr st \<and> cwd st' = d))"
  using assms perror_nonempty
  by (auto simp: routeCommand_def Let_def cd_def chdir_def split: option.splits sum.splits)

text \<open>The theorem at \<^verbatim>\<open>cd\<close> with no \<^verbatim>\<open>HOME\<close>, and at \<^verbatim>\<open>cd /nowhere\<close>.\<close>

theorem cd_reports_only_explicit_failure_witness:
  "(\<exists>st'. routeCommand sample_platform (sample_dispatch 0 [] 0) (sample_cmnd [''cd''] False) (shell_start ''/tmp'' [])
        = Continue st' \<and> stderr st' = [] \<and> cwd st' = ''/tmp'')
   \<and> (\<exists>st'. routeCommand sample_platform (sample_dispatch 0 [] 0) (sample_cmnd [''cd'', ''/nowhere''] False)
          (shell_start ''/tmp'' []) = Continue st'
        \<and> stderr st' = ''Nope: No such file or directory'' @ ''\<newline>'' \<and> cwd st' = ''/tmp'')"
proof -
  have a: "cell (args (sample_cmnd (''cd'' # av) False)) 0 = Some ''cd''" for av
    by (simp add: sample_cmnd_def cell_def)
  have b: "cell (args (sample_cmnd [''cd''] False)) 1 = None"
    "cell (args (sample_cmnd [''cd'', ''/nowhere''] False)) 1 = Some ''/nowhere''"
    by (simp_all add: sample_cmnd_def cell_def)
  have c: "getenv_HOME sample_platform = None"
    "chdir_sys sample_platform ''/tmp'' ''/nowhere'' = Inl ''No such file or directory''"
    by (simp_all add: sample_platform_def)
  have d: "cwd (shell_start ''/tmp'' []) = ''/tmp''" "stderr (shell_start ''/tmp'' []) = []"
    by (simp_all add: shell_start_def sigtstpSet_def sigintIgnore_def)
  show ?thesis
    using cd_reports_only_explicit_failure [OF a [of "[]"], of sample_platform "sample_dispatch 0 [] 0" "shell_start ''/tmp'' []"]
      cd_reports_only_explicit_failure [OF a [of "[''/nowhere'']"], of sample_platform "sample_dispatch 0 [] 0" "shell_start ''/tmp'' []"]
    unfolding b d by (auto simp: perror_def c)
qed

subsection \<open>The streams of a background child\<close>












subsection \<open>The notices of the mode change\<close>

lemma deliver_in_command:
  assumes "processActive st" and "sigtstp st = Handler h"
  shows "deliver_SIGTSTP Sigaction_ok st
     = st\<lparr>sigtstp := Handler (if h = H_foregroundonly then H_allowbackground else H_foregroundonly),
           allowBackground := (h = H_allowbackground), sigtstpTriggered := True\<rparr>"
  using assms
  by (cases h) (simp_all add: deliver_SIGTSTP_def foregroundonly_def allowbackground_def Let_def)

lemma deliveries_in_command:
  assumes "processActive st" and "sigtstp st = Handler h" and "ds \<noteq> []"
      and "set ds \<subseteq> {Sigaction_ok}"
  shows "\<exists>h'. fold deliver_SIGTSTP ds st
     = st\<lparr>sigtstp := Handler h',
           allowBackground := (if even (length ds) then h = H_foregroundonly else h = H_allowbackground),
           sigtstpTriggered := True\<rparr>"
  using assms
proof (induction ds arbitrary: st h)
  case Nil
  then show ?case by simp
next
  case (Cons d ds)
  let ?h1 = "if h = H_foregroundonly then H_allowbackground else H_foregroundonly"
  let ?st1 = "st\<lparr>sigtstp := Handler ?h1, allowBackground := (h = H_allowbackground),
                  sigtstpTriggered := True\<rparr>"
  have d: "d = Sigaction_ok" using Cons.prems(4) by simp
  have step: "deliver_SIGTSTP d st = ?st1"
    unfolding d using Cons.prems(1,2) by (rule deliver_in_command)
  show ?case
  proof (cases "ds = []")
    case True
    with step show ?thesis by (cases h) auto
  next
    case False
    have "\<exists>h'. fold deliver_SIGTSTP ds ?st1
       = ?st1\<lparr>sigtstp := Handler h',
           allowBackground := (if even (length ds) then ?h1 = H_foregroundonly else ?h1 = H_allowbackground),
           sigtstpTriggered := True\<rparr>"
      using Cons.prems(1,4) False by (intro Cons.IH) simp_all
    then obtain h' where "fold deliver_SIGTSTP ds ?st1
       = ?st1\<lparr>sigtstp := Handler h',
           allowBackground := (if even (length ds) then ?h1 = H_foregroundonly else ?h1 = H_allowbackground),
           sigtstpTriggered := True\<rparr>" ..
    with step show ?thesis by (cases h) auto
  qed
qed

lemma deliver_immediate:
  assumes "\<not> processActive st" and "sigtstp st = Handler h"
  shows "stdout (deliver_SIGTSTP Sigaction_ok st)
       = stdout st @ (case h of
                        H_foregroundonly \<Rightarrow> ''\<newline>Entering foreground-only mode (& is now ignored).\<newline>: ''
                      | H_allowbackground \<Rightarrow> ''\<newline>Exiting foreground-only mode.\<newline>: '')
     \<and> \<not> sigtstpTriggered (deliver_SIGTSTP Sigaction_ok st)
     \<and> allowBackground (deliver_SIGTSTP Sigaction_ok st) = (h = H_allowbackground)"
  using assms
  by (cases h)
    (simp_all add: deliver_SIGTSTP_def foregroundonly_def allowbackground_def Let_def bgOn_def bgOff_def)

lemma deferred_after_wait:
  assumes fg: "foreground_wait D cmnd st" and h: "sigtstp st = Handler h"
      and ds: "tstp_during_wait D \<noteq> []" "set (tstp_during_wait D) \<subseteq> {Sigaction_ok}"
  shows "\<exists>st'. routeCommand P D cmnd st = Continue st' \<and> \<not> sigtstpTriggered st'
     \<and> stdout st' = stdout st
          @ (if WIFSIGNALED P (wait_status D)
             then ''terminated by signal '' @ show_int (WTERMSIG P (wait_status D)) @ ''\<newline>''
             else [])
          @ deferredNotice (allowBackground st')
     \<and> allowBackground st' = (if even (length (tstp_during_wait D)) then h = H_foregroundonly
                               else h = H_allowbackground)"
proof -
  let ?st = "st\<lparr>processActive := True\<rparr>"
  have r: "routeCommand P D cmnd st
     = Continue ((routeCommand_parent P D cmnd ?st)\<lparr>processActive := False\<rparr>)"
    using fg by (rule foreground_wait_returns)
  have nb: "(backgroundProcess cmnd \<and> allowBackground st) = False"
    using fg by (auto simp: foreground_wait_def split: option.splits if_splits)
  obtain h' where f: "fold deliver_SIGTSTP (tstp_during_wait D) ?st
     = ?st\<lparr>sigtstp := Handler h',
           allowBackground := (if even (length (tstp_during_wait D)) then h = H_foregroundonly
                               else h = H_allowbackground),
           sigtstpTriggered := True\<rparr>"
    using deliveries_in_command [of ?st h "tstp_during_wait D"] h ds by auto
  show ?thesis
    unfolding r
    by (simp add: routeCommand_parent_def waitpid_foreground_def f nb Let_def)
qed

text \<open>
  Claim C1, as the source has it. A delivery while no command is in progress writes one
  notice at once, with the texts of the claim. Deliveries while a foreground command is
  waited for write nothing during the wait; however many they are, one notice follows the
  return of the wait, for the mode then in force, and the pending flag is cleared. The
  deferred notice of leaving the mode has the text of the claim.
\<close>

theorem mode_notice_immediate_or_once_after_wait:
  assumes h: "sigtstp st = Handler h"
  shows "(\<not> processActive st \<longrightarrow>
            stdout (deliver_SIGTSTP Sigaction_ok st)
              = stdout st @ (case h of
                   H_foregroundonly \<Rightarrow> ''\<newline>Entering foreground-only mode (& is now ignored).\<newline>: ''
                 | H_allowbackground \<Rightarrow> ''\<newline>Exiting foreground-only mode.\<newline>: '')
            \<and> \<not> sigtstpTriggered (deliver_SIGTSTP Sigaction_ok st))
       \<and> (foreground_wait D cmnd st \<and> tstp_during_wait D \<noteq> []
            \<and> set (tstp_during_wait D) \<subseteq> {Sigaction_ok} \<longrightarrow>
            (\<exists>st'. routeCommand P D cmnd st = Continue st' \<and> \<not> sigtstpTriggered st'
               \<and> stdout st' = stdout st
                    @ (if WIFSIGNALED P (wait_status D)
                       then ''terminated by signal '' @ show_int (WTERMSIG P (wait_status D))
                            @ ''\<newline>''
                       else [])
                    @ deferredNotice (allowBackground st')
               \<and> allowBackground st' = (if even (length (tstp_during_wait D))
                                         then h = H_foregroundonly else h = H_allowbackground)))
       \<and> deferredNotice True = ''\<newline>Exiting foreground-only mode.\<newline>''"
proof -
  have a: "\<not> processActive st \<longrightarrow>
            stdout (deliver_SIGTSTP Sigaction_ok st)
              = stdout st @ (case h of
                   H_foregroundonly \<Rightarrow> ''\<newline>Entering foreground-only mode (& is now ignored).\<newline>: ''
                 | H_allowbackground \<Rightarrow> ''\<newline>Exiting foreground-only mode.\<newline>: '')
            \<and> \<not> sigtstpTriggered (deliver_SIGTSTP Sigaction_ok st)"
    using deliver_immediate [OF _ h] by blast
  have b: "foreground_wait D cmnd st \<and> tstp_during_wait D \<noteq> []
            \<and> set (tstp_during_wait D) \<subseteq> {Sigaction_ok} \<longrightarrow>
            (\<exists>st'. routeCommand P D cmnd st = Continue st' \<and> \<not> sigtstpTriggered st'
               \<and> stdout st' = stdout st
                    @ (if WIFSIGNALED P (wait_status D)
                       then ''terminated by signal '' @ show_int (WTERMSIG P (wait_status D))
                            @ ''\<newline>''
                       else [])
                    @ deferredNotice (allowBackground st')
               \<and> allowBackground st' = (if even (length (tstp_during_wait D))
                                         then h = H_foregroundonly else h = H_allowbackground))"
    using deferred_after_wait [OF _ h, of D cmnd P] by blast
  have c: "deferredNotice True = ''\<newline>Exiting foreground-only mode.\<newline>''"
    by (simp add: deferredNotice_def)
  from a b c show ?thesis by blast
qed

text \<open>
  The theorem at a delivery at the prompt, and at one delivery during \<^verbatim>\<open>sleep 5\<close> in
  foreground-only mode.
\<close>

theorem mode_notice_immediate_or_once_after_wait_witness:
  "stdout (deliver_SIGTSTP Sigaction_ok (shell_start ''/'' []))
     = ''\<newline>Entering foreground-only mode (& is now ignored).\<newline>: ''
   \<and> (\<exists>st'. routeCommand sample_platform (sample_dispatch 100 [Sigaction_ok] 0)
               (sample_cmnd [''sleep'', ''5''] False)
               (deliver_SIGTSTP Sigaction_ok (shell_start ''/'' [])) = Continue st'
          \<and> allowBackground st'
          \<and> stdout st' = stdout (deliver_SIGTSTP Sigaction_ok (shell_start ''/'' []))
                          @ ''\<newline>Exiting foreground-only mode.\<newline>'')"
proof -
  let ?s0 = "shell_start ''/'' []"
  let ?s1 = "deliver_SIGTSTP Sigaction_ok ?s0"
  let ?D = "sample_dispatch 100 [Sigaction_ok] 0"
  let ?c = "sample_cmnd [''sleep'', ''5''] False"
  have h0: "sigtstp ?s0 = Handler H_foregroundonly" and p0: "\<not> processActive ?s0"
    and o0: "stdout ?s0 = []"
    by (simp_all add: route_eval)
  have h1: "sigtstp ?s1 = Handler H_allowbackground"
    by (simp add: route_eval)
  have fg: "foreground_wait ?D ?c ?s1"
    by (simp add: route_eval)
  have ds: "tstp_during_wait ?D \<noteq> []" "set (tstp_during_wait ?D) \<subseteq> {Sigaction_ok}"
    "odd (length (tstp_during_wait ?D))" "\<not> WIFSIGNALED sample_platform (wait_status ?D)"
    by (simp_all add: sample_dispatch_def sample_platform_def)
  have a: "stdout ?s1 = ''\<newline>Entering foreground-only mode (& is now ignored).\<newline>: ''"
    using mode_notice_immediate_or_once_after_wait [OF h0] p0 o0 by simp
  have b: "\<exists>st'. routeCommand sample_platform ?D ?c ?s1 = Continue st' \<and> allowBackground st'
          \<and> stdout st' = stdout ?s1 @ ''\<newline>Exiting foreground-only mode.\<newline>''"
    using mode_notice_immediate_or_once_after_wait [OF h1, of ?D ?c sample_platform] fg ds
    by auto
  from a b show ?thesis by blast
qed

text \<open>
  Claim C1 as stated fails: two deliveries during one foreground command are answered by
  one notice, and the deferred notice of entering the mode reads \<^verbatim>\<open>(& will be ignored)\<close>
  where the handler writes \<^verbatim>\<open>(& is now ignored)\<close>.
\<close>

theorem two_deliveries_one_notice:
  "routeCommand sample_platform (sample_dispatch 100 [Sigaction_ok, Sigaction_ok] 0)
       (sample_cmnd [''sleep'', ''5''] False) (shell_start ''/'' [])
     = Continue ((shell_start ''/'' [])\<lparr>stdout := ''\<newline>Exiting foreground-only mode.\<newline>''\<rparr>)
   \<and> routeCommand sample_platform (sample_dispatch 100 [Sigaction_ok] 0)
       (sample_cmnd [''sleep'', ''5''] False) (shell_start ''/'' [])
     = Continue ((shell_start ''/'' [])\<lparr>allowBackground := False, sigtstp := Handler H_allowbackground,
          stdout := ''\<newline>Entering foreground-only mode (& will be ignored).\<newline>''\<rparr>)"
  by (simp add: route_eval)

end
